theory Spec2Isabelle
  imports Main "HOL-Library.Sublist"
begin

section \<open>Strings and regular expressions\<close>

text \<open>
  A Python \<open>str\<close> is modelled as a \<open>string\<close>; a \<open>char\<close> is read as the code point of the
  same number (U+0000 to U+00FF). The three character classes of the source's patterns are
  \<open>\w\<close>, \<open>\d\<close> and \<open>[0-9]\<close>. On a \<open>str\<close> pattern Python's \<open>\w\<close> and \<open>\d\<close> are
  Unicode aware: below U+0100 \<open>\d\<close> is the ASCII digits, and \<open>\w\<close> is the ASCII letters,
  digits and underscore together with the letters and numerics of Latin-1.
\<close>

datatype cls = Word | Digit | Digit09

definition in_range :: "nat \<Rightarrow> nat \<Rightarrow> char \<Rightarrow> bool" where
  "in_range lo hi c = (lo \<le> of_char c \<and> (of_char c :: nat) \<le> hi)"

fun in_cls :: "cls \<Rightarrow> char \<Rightarrow> bool" where
  "in_cls Digit c = in_range 48 57 c"
| "in_cls Digit09 c = in_range 48 57 c"
| "in_cls Word c =
     (in_range 48 57 c \<or> in_range 65 90 c \<or> c = CHR ''_'' \<or> in_range 97 122 c \<or>
      in_range 170 170 c \<or> in_range 178 179 c \<or> in_range 181 181 c \<or>
      in_range 185 186 c \<or> in_range 188 190 c \<or> in_range 192 214 c \<or>
      in_range 216 246 c \<or> in_range 248 255 c)"

text \<open>
  A pattern is the list of its tokens, left to right: \<open>^\<close>, \<open>$\<close>, a literal character,
  a greedy \<open>c*\<close> and a counted \<open>c{n}\<close> over a character class, and the two parentheses
  of a named group \<open>(?P<g> ... )\<close>.
\<close>

datatype tok = Caret | Dollar | Lit char | Star cls | Rep cls nat | Open string | Close string

definition piece :: "string \<Rightarrow> string list \<times> string \<Rightarrow> string list \<times> string" where
  "piece p m = (p # fst m, snd m)"

text \<open>
  \<open>rx_match ts b s\<close> lists every way the tokens \<open>ts\<close> match a prefix of \<open>s\<close>, in the order
  a backtracking matcher tries them (a greedy star takes the longest run first and gives
  characters back one at a time). Each way is the text every token consumed, with the
  unread rest. \<open>b\<close> says that \<open>s\<close> starts at the beginning of the subject string:
  without the MULTILINE flag \<open>^\<close> matches only there, and \<open>$\<close> matches at the end of the
  string or before a line feed that ends the string.
\<close>

fun rx_match :: "tok list \<Rightarrow> bool \<Rightarrow> string \<Rightarrow> (string list \<times> string) list" where
  "rx_match [] b s = [([], s)]"
| "rx_match (Caret # ts) b s = (if b then map (piece []) (rx_match ts b s) else [])"
| "rx_match (Dollar # ts) b s =
     (if s = [] \<or> s = [CHR 0x0A] then map (piece []) (rx_match ts b s) else [])"
| "rx_match (Lit c # ts) b s =
     (case s of [] \<Rightarrow> []
      | x # xs \<Rightarrow> if x = c then map (piece [c]) (rx_match ts False xs) else [])"
| "rx_match (Rep k n # ts) b s =
     (if n \<le> length s \<and> list_all (in_cls k) (take n s)
      then map (piece (take n s)) (rx_match ts (b \<and> n = 0) (drop n s)) else [])"
| "rx_match (Star k # ts) b s =
     concat (map (\<lambda>j. map (piece (take j s)) (rx_match ts (b \<and> j = 0) (drop j s)))
       (rev [0..<Suc (length (takeWhile (in_cls k) s))]))"
| "rx_match (Open g # ts) b s = map (piece []) (rx_match ts b s)"
| "rx_match (Close g # ts) b s = map (piece []) (rx_match ts b s)"

text \<open>A match object: every token of the pattern with the text it consumed.\<close>

type_synonym match = "(tok \<times> string) list"

definition first_match :: "tok list \<Rightarrow> bool \<Rightarrow> string \<Rightarrow> match option" where
  "first_match ts b s = (case rx_match ts b s of [] \<Rightarrow> None | m # _ \<Rightarrow> Some (zip ts (fst m)))"

text \<open>\<open>re.match\<close> tries the pattern at offset 0 only; \<open>re.search\<close> at every offset, leftmost first.\<close>

definition re_match :: "tok list \<Rightarrow> string \<Rightarrow> match option" where
  "re_match ts s = first_match ts True s"

definition re_search :: "tok list \<Rightarrow> string \<Rightarrow> match option" where
  "re_search ts s =
     (case List.map_filter (\<lambda>i. first_match ts (i = 0) (drop i s)) [0..<Suc (length s)] of
        [] \<Rightarrow> None | m # _ \<Rightarrow> Some m)"

text \<open>\<open>group g inside m\<close>: the text between \<open>(?P<g>\<close> and its closing parenthesis.\<close>

fun group :: "string \<Rightarrow> bool \<Rightarrow> match \<Rightarrow> string" where
  "group g inside [] = []"
| "group g inside ((Open h, p) # m) = group g (inside \<or> h = g) m"
| "group g inside ((Close h, p) # m) = (if h = g then [] else group g inside m)"
| "group g inside ((t, p) # m) = (if inside then p else []) @ group g inside m"

section \<open>parse_record\<close>

text \<open>The tuple \<open>(type, id, trajectory, date, time)\<close> that \<open>parse_record\<close> returns.\<close>

record record_meta =
  r_type :: string
  r_id :: string
  r_trajectory :: string
  r_date :: string
  r_time :: string

text \<open>
  The exceptions: \<open>Warning("Wrong record", name)\<close> of \<open>parse_record\<close>, and the
  \<open>FileNotFoundError\<close> of \<open>open\<close> in \<open>fetch_data\<close>, with the path.
\<close>

datatype exn = Warning string string | FileNotFoundError string

definition experiment_name_regexp :: "tok list" where
  "experiment_name_regexp =
     [Caret, Open ''type'', Star Word, Close ''type'', Lit CHR ''-'',
      Open ''id'', Rep Digit 2, Close ''id'', Lit CHR ''-'',
      Open ''trajectory'', Star Word, Close ''trajectory'', Lit CHR ''-'',
      Open ''date'', Rep Digit 4, Lit CHR ''-'', Rep Digit 2, Lit CHR ''-'', Rep Digit 2,
      Close ''date'', Lit CHR ''-'',
      Open ''time'', Rep Digit 2, Lit CHR ''-'', Rep Digit 2, Lit CHR ''-'', Rep Digit 2,
      Lit CHR ''-'', Rep Digit 3, Close ''time'']"

definition parse_record :: "string \<Rightarrow> exn + record_meta" where
  "parse_record name =
     (case re_search experiment_name_regexp name of
        None \<Rightarrow> Inl (Warning ''Wrong record'' name)
      | Some tags \<Rightarrow>
          Inr \<lparr>r_type = group ''type'' False tags, r_id = group ''id'' False tags,
               r_trajectory = group ''trajectory'' False tags,
               r_date = group ''date'' False tags, r_time = group ''time'' False tags\<rparr>)"

text \<open>Line 155: \<open>"{:s}-{:s}-{:s}-{:s}-{:s}".format(r[0], r[1], r[2], r[3], r[4])\<close>.\<close>

definition record_name :: "record_meta \<Rightarrow> string" where
  "record_name r =
     r_type r @ ''-'' @ r_id r @ ''-'' @ r_trajectory r @ ''-'' @ r_date r @ ''-'' @ r_time r"

text \<open>
  The record grammar of the specification,
  \<open><type>-<2-digit-id>-<trajectory>-<YYYY-MM-DD>-<HH-MM-SS-mmm>\<close>, as a predicate on the
  five fields: type and trajectory are word characters, the others digits and dashes in
  the given shape. A line matches the grammar when it is the name of such a record.
\<close>

definition digits :: "nat \<Rightarrow> string \<Rightarrow> bool" where
  "digits n s = (length s = n \<and> list_all (in_cls Digit) s)"

definition wf_date :: "string \<Rightarrow> bool" where
  "wf_date d =
     (length d = 10 \<and> digits 4 (take 4 d) \<and> d ! 4 = CHR ''-'' \<and>
      digits 2 (take 2 (drop 5 d)) \<and> d ! 7 = CHR ''-'' \<and> digits 2 (drop 8 d))"

definition wf_time :: "string \<Rightarrow> bool" where
  "wf_time t =
     (length t = 12 \<and> digits 2 (take 2 t) \<and> t ! 2 = CHR ''-'' \<and>
      digits 2 (take 2 (drop 3 t)) \<and> t ! 5 = CHR ''-'' \<and>
      digits 2 (take 2 (drop 6 t)) \<and> t ! 8 = CHR ''-'' \<and> digits 3 (drop 9 t))"

definition well_formed :: "record_meta \<Rightarrow> bool" where
  "well_formed r =
     (list_all (in_cls Word) (r_type r) \<and> digits 2 (r_id r) \<and>
      list_all (in_cls Word) (r_trajectory r) \<and> wf_date (r_date r) \<and> wf_time (r_time r))"

definition matches_grammar :: "string \<Rightarrow> bool" where
  "matches_grammar line = (\<exists>r. well_formed r \<and> line = record_name r)"

text \<open>
  The same grammar stated on the string alone: a canonical name is
  \<open>type-id-trajectory-YYYY-MM-DD-HH-MM-SS-mmm\<close>, ten runs of word characters or of
  digits separated by dashes.
\<close>

definition canonical_name :: "string \<Rightarrow> bool" where
  "canonical_name name =
     (\<exists>t i tr y mo d h mi s ms.
        name = t @ ''-'' @ i @ ''-'' @ tr @ ''-'' @ y @ ''-'' @ mo @ ''-'' @ d @ ''-'' @
               h @ ''-'' @ mi @ ''-'' @ s @ ''-'' @ ms \<and>
        list_all (in_cls Word) t \<and> digits 2 i \<and> list_all (in_cls Word) tr \<and>
        digits 4 y \<and> digits 2 mo \<and> digits 2 d \<and>
        digits 2 h \<and> digits 2 mi \<and> digits 2 s \<and> digits 3 ms)"


section \<open>Validation of the arguments\<close>

text \<open>
  Every early \<open>return\<close> of \<open>download\<close> and \<open>get_records_dataframe\<close>, named after what the
  source prints before it: \<open>usage()\<close> alone (an argument list is empty),
  \<open>Invalid experiment type\<close>, \<open>Invalid media type\<close>, \<open>Invalid id\<close> and \<open>ID ... not available\<close>.
\<close>

datatype early = MissingArguments | InvalidExperimentType string | InvalidMediaType string
  | InvalidId string | IdNotAvailable string

text \<open>Lines 88-92 and 232-236: the first element that is no experiment type, if any.\<close>

definition check_experiment_types :: "string list \<Rightarrow> string option" where
  "check_experiment_types experiment_types =
     find (\<lambda>e. \<not> e \<in> set [''emg_gestures'', ''emg_force'']) experiment_types"

text \<open>
  Lines 95-102 and 240-247: the first element \<open>m\<close> with
  \<open>not any(m in t for t in (...))\<close>; on strings \<open>m in t\<close> is containment as a substring.
\<close>

definition MEDIA_TYPES :: "string list" where
  "MEDIA_TYPES = [''data-csv'', ''data-hdf5'', ''depth'', ''video-1080p'', ''video-576p'']"

definition media_type_ok :: "string \<Rightarrow> bool" where
  "media_type_ok m = list_ex (\<lambda>t. sublist m t) MEDIA_TYPES"

definition check_media_types :: "string list \<Rightarrow> string option" where
  "check_media_types media_types = find (\<lambda>m. \<not> media_type_ok m) media_types"

text \<open>Lines 125 and 268: \<open>re.match(r"^[0-9]{2}$", id)\<close>.\<close>

definition id_regexp :: "tok list" where
  "id_regexp = [Caret, Rep Digit09 2, Dollar]"

text \<open>
  Lines 122-133 and 265-276: the loop over \<open>data_ids\<close>, with \<open>ids\<close> the IDs of the manifest
  and \<open>ids_requested\<close> the set built so far.
\<close>

fun ids_loop :: "string list \<Rightarrow> string set \<Rightarrow> string set \<Rightarrow> early + string set" where
  "ids_loop [] ids ids_requested = Inr ids_requested"
| "ids_loop (i # data_ids) ids ids_requested =
     (if re_match id_regexp i = None then Inl (InvalidId i)
      else if \<not> i \<in> ids then Inl (IdNotAvailable i)
      else ids_loop data_ids ids (insert i ids_requested))"

definition select_ids :: "string list \<Rightarrow> string set \<Rightarrow> early + string set" where
  "select_ids data_ids ids =
     (if data_ids \<noteq> [] then
        (case ids_loop data_ids ids {} of
           Inl e \<Rightarrow> Inl e
         | Inr ids_requested \<Rightarrow> Inr (ids \<inter> ids_requested))
      else Inr ids)"

text \<open>Lines 115-120 and 258-263: the loop over the lines of the manifest.\<close>

fun parse_loop :: "string list \<Rightarrow> record_meta list \<Rightarrow> string set \<Rightarrow>
    exn + record_meta list \<times> string set" where
  "parse_loop [] records ids = Inr (records, ids)"
| "parse_loop (r # records_available) records ids =
     (case parse_record r of
        Inl e \<Rightarrow> Inl e
      | Inr t \<Rightarrow> parse_loop records_available (records @ [t]) (insert (r_id t) ids))"

section \<open>The file system and the network\<close>

text \<open>
  The world a call runs in: the regular files (path to content), the directories, and the
  calls made so far that reach the network or create a directory, in program order. The
  remote side is the manifest, already decoded and split into lines, and the body answered
  to the GET of a URL. Every request is answered and every file operation succeeds;
  what is printed is not modelled.
\<close>

datatype event = HttpGet string | MakeDirs string

record world =
  files :: "string \<Rightarrow> string option"
  dirs :: "string set"
  calls :: "event list"

record remote =
  records_txt :: "string list"
  content :: "string \<Rightarrow> string"

definition BASE_URL :: string where
  "BASE_URL = ''https://chmura.put.poznan.pl/s/G285gnQVuCnfQAx/download?path=%2F''"

definition VIDEO_1080p_DIR :: string where "VIDEO_1080p_DIR = ''Video-1080p''"
definition VIDEO_576p_DIR :: string where "VIDEO_576p_DIR = ''Video-576p''"
definition DEPTH_DIR :: string where "DEPTH_DIR = ''Depth''"
definition DATA_HDF5_DIR :: string where "DATA_HDF5_DIR = ''Data-HDF5''"
definition DATA_CSV_DIR :: string where "DATA_CSV_DIR = ''Data-CSV''"

definition isfile :: "world \<Rightarrow> string \<Rightarrow> bool" where
  "isfile w path = (files w path \<noteq> None)"

definition http_get :: "string \<Rightarrow> world \<Rightarrow> world" where
  "http_get url w = w\<lparr>calls := calls w @ [HttpGet url]\<rparr>"

text \<open>\<open>os.makedirs(d, exist_ok=True)\<close>.\<close>

definition makedirs :: "string \<Rightarrow> world \<Rightarrow> world" where
  "makedirs d w = w\<lparr>dirs := insert d (dirs w), calls := calls w @ [MakeDirs d]\<rparr>"

text \<open>Lines 108-113 and 251-256: the manifest is read with one GET.\<close>

definition fetch_manifest :: "remote \<Rightarrow> world \<Rightarrow> string list \<times> world" where
  "fetch_manifest net w = (records_txt net, http_get (BASE_URL @ ''&files=records.txt'') w)"

section \<open>fetch_data\<close>

definition fetch_url :: "string \<Rightarrow> string \<Rightarrow> string \<Rightarrow> string \<Rightarrow> string" where
  "fetch_url base_url data_dir record file_type =
     base_url @ data_dir @ ''&files='' @ record @ ''.'' @ file_type"

definition fetch_path :: "string \<Rightarrow> string \<Rightarrow> string \<Rightarrow> string" where
  "fetch_path data_dir record file_type = data_dir @ ''/'' @ record @ ''.'' @ file_type"

text \<open>
  What a call of \<open>fetch_data\<close> did. The source returns \<open>None\<close> on both paths; the
  label tells which one was taken: \<open>Skipped\<close> is the \<open>return\<close> of line 200,
  \<open>Stored\<close> the end of the body, after the GET and the write.
\<close>

datatype fetched = Skipped | Stored

text \<open>
  Lines 207-208: \<open>open(file_path, "wb")\<close> and the write. The file is created in the
  directory \<open>data_dir\<close> (a record name and a file type hold no slash); when that
  directory does not exist, \<open>open\<close> raises \<open>FileNotFoundError\<close> and nothing is written.
\<close>

definition store :: "remote \<Rightarrow> string \<Rightarrow> string \<Rightarrow> string \<Rightarrow> world \<Rightarrow> exn + world" where
  "store net url data_dir file_path w =
     (if data_dir \<in> dirs w
      then Inr (w\<lparr>files := (files w)(file_path \<mapsto> content net url)\<rparr>)
      else Inl (FileNotFoundError file_path))"


text \<open>
  A task of \<open>download\<close>: the arguments \<open>data_dir\<close>, \<open>record\<close> and \<open>file_type\<close> of a call
  \<open>fetch_data(session, BASE_URL, data_dir, record, file_type)\<close>, with \<open>overwrite_existing\<close>
  left at its default \<open>False\<close>.

  \<open>asyncio.gather\<close> over the tasks: \<open>download\<close> creates all of them before it awaits, so
  each task runs down to its \<open>session.get\<close> (the test of line 199, then the request) in
  the order of creation before any response is handled. Every task therefore tests
  \<open>isfile\<close> in the world in which \<open>gather\<close> starts; the responses are stored afterwards.
  The program does not fix the order in which the responses arrive: the model stores them
  in the order of the requests, and the first exception of a task ends the gathering, as
  it is the one that \<open>await asyncio.gather\<close> raises. The order matters only when a
  directory is missing.
\<close>

type_synonym task = "string \<times> string \<times> string"

definition task_url :: "task \<Rightarrow> string" where
  "task_url t = (case t of (data_dir, record, file_type) \<Rightarrow>
     fetch_url BASE_URL data_dir record file_type)"

definition task_path :: "task \<Rightarrow> string" where
  "task_path t = (case t of (data_dir, record, file_type) \<Rightarrow>
     fetch_path data_dir record file_type)"

definition task_dir :: "task \<Rightarrow> string" where
  "task_dir t = (case t of (data_dir, record, file_type) \<Rightarrow> data_dir)"

fun store_all :: "remote \<Rightarrow> task list \<Rightarrow> world \<Rightarrow> exn option \<times> world" where
  "store_all net [] w = (None, w)"
| "store_all net (t # ts) w =
     (case store net (task_url t) (task_dir t) (task_path t) w of
        Inl e \<Rightarrow> (Some e, w)
      | Inr w' \<Rightarrow> store_all net ts w')"

definition gather :: "remote \<Rightarrow> task list \<Rightarrow> world \<Rightarrow> (exn + fetched list) \<times> world" where
  "gather net tasks w =
     (let started = filter (\<lambda>t. \<not> isfile w (task_path t)) tasks;
          w1 = fold (\<lambda>t. http_get (task_url t)) started w
      in case store_all net started w1 of
           (None, w2) \<Rightarrow>
             (Inr (map (\<lambda>t. if isfile w (task_path t) then Skipped else Stored) tasks), w2)
         | (Some e, w2) \<Rightarrow> (Inl e, w2))"

section \<open>download\<close>

text \<open>
  How a call ends: an exception (the \<open>Warning\<close> of \<open>parse_record\<close>, or that of a task)
  leaves it; otherwise
  it returns, after an early exit or at its end, with a value.
\<close>

datatype 'a outcome = Raised exn | Returned "early option" 'a

text \<open>Lines 140-149.\<close>

definition make_dirs :: "string set \<Rightarrow> world \<Rightarrow> world" where
  "make_dirs media_types w =
     (let w = (if ''data-csv'' \<in> media_types then makedirs DATA_CSV_DIR w else w);
          w = (if ''data-hdf5'' \<in> media_types then makedirs DATA_HDF5_DIR w else w);
          w = (if ''depth'' \<in> media_types then makedirs DEPTH_DIR w else w);
          w = (if ''video-1080p'' \<in> media_types then makedirs VIDEO_1080p_DIR w else w);
          w = (if ''video-576p'' \<in> media_types then makedirs VIDEO_576p_DIR w else w)
      in w)"

text \<open>Lines 155-187: the tasks created for one record that passed the test of line 154.\<close>

definition record_tasks :: "string set \<Rightarrow> record_meta \<Rightarrow> task list" where
  "record_tasks media_types r =
     (let record = record_name r in
      (if ''data-csv'' \<in> media_types then [(DATA_CSV_DIR, record, ''zip'')] else []) @
      (if ''data-hdf5'' \<in> media_types then [(DATA_HDF5_DIR, record, ''hdf5'')] else []) @
      (if ''depth'' \<in> media_types \<and> r_type r \<noteq> ''emg_force''
       then [(DEPTH_DIR, record, ''zip'')] else []) @
      (if ''video-1080p'' \<in> media_types then [(VIDEO_1080p_DIR, record, ''mp4'')] else []) @
      (if ''video-576p'' \<in> media_types then [(VIDEO_576p_DIR, record, ''mp4'')] else []))"

text \<open>Lines 154 and 282: \<open>r[0] in experiment_types and r[1] in ids\<close>.\<close>

definition matched :: "string set \<Rightarrow> string set \<Rightarrow> record_meta list \<Rightarrow> record_meta list" where
  "matched experiment_types ids records =
     filter (\<lambda>r. r_type r \<in> experiment_types \<and> r_id r \<in> ids) records"

definition all_tasks :: "string set \<Rightarrow> string set \<Rightarrow> string set \<Rightarrow> record_meta list \<Rightarrow> task list" where
  "all_tasks experiment_types media_types ids records =
     concat (map (record_tasks media_types) (matched experiment_types ids records))"

text \<open>\<open>data_ids\<close> is a list; \<open>None\<close> is the empty list (line 82).\<close>

definition download :: "string list \<Rightarrow> string list \<Rightarrow> string list \<Rightarrow> remote \<Rightarrow> world \<Rightarrow>
    unit outcome \<times> world" where
  "download experiment_types media_types data_ids net w =
     (if experiment_types = [] \<or> media_types = [] then (Returned (Some MissingArguments) (), w)
      else case check_experiment_types experiment_types of
        Some e \<Rightarrow> (Returned (Some (InvalidExperimentType e)) (), w)
      | None \<Rightarrow>
      (case check_media_types media_types of
        Some m \<Rightarrow> (Returned (Some (InvalidMediaType m)) (), w)
      | None \<Rightarrow>
      (case fetch_manifest net w of (records_available, w1) \<Rightarrow>
      (case parse_loop records_available [] {} of
        Inl e \<Rightarrow> (Raised e, w1)
      | Inr (records, ids) \<Rightarrow>
      (case select_ids data_ids ids of
        Inl e \<Rightarrow> (Returned (Some e) (), w1)
      | Inr ids \<Rightarrow>
          (let w2 = make_dirs (set media_types) w1;
               tasks = all_tasks (set experiment_types) (set media_types) ids records
           in case gather net tasks w2 of
                (Inl e, w3) \<Rightarrow> (Raised e, w3)
              | (Inr fetched, w3) \<Rightarrow> (Returned None (), w3)))))))"

section \<open>get_records_dataframe\<close>

text \<open>
  What \<open>get_records_dataframe\<close> returns: the data frame that
  \<open>create_dataframe_from_records_meta\<close> builds from the list \<open>records_meta\<close>, or the list itself.
\<close>

datatype retval = DataFrame "record_meta list" | BareList "record_meta list"

definition create_dataframe_from_records_meta :: "record_meta list \<Rightarrow> retval" where
  "create_dataframe_from_records_meta records_meta = DataFrame records_meta"

definition get_records_dataframe :: "string list \<Rightarrow> string list \<Rightarrow> string list \<Rightarrow> remote \<Rightarrow> world \<Rightarrow>
    retval outcome \<times> world" where
  "get_records_dataframe experiment_types media_types data_ids net w =
     (let records_meta = [] in
      if experiment_types = [] \<or> media_types = []
      then (Returned (Some MissingArguments) (create_dataframe_from_records_meta records_meta), w)
      else case check_experiment_types experiment_types of
        Some e \<Rightarrow> (Returned (Some (InvalidExperimentType e))
                    (create_dataframe_from_records_meta records_meta), w)
      | None \<Rightarrow>
      (case check_media_types media_types of
        Some m \<Rightarrow> (Returned (Some (InvalidMediaType m))
                    (create_dataframe_from_records_meta records_meta), w)
      | None \<Rightarrow>
      (case fetch_manifest net w of (records_available, w1) \<Rightarrow>
      (case parse_loop records_available [] {} of
        Inl e \<Rightarrow> (Raised e, w1)
      | Inr (records, ids) \<Rightarrow>
      (case select_ids data_ids ids of
        Inl e \<Rightarrow> (Returned (Some e) (BareList records_meta), w1)
      | Inr ids \<Rightarrow>
          (Returned None (create_dataframe_from_records_meta
             (records_meta @ matched (set experiment_types) ids records)), w1))))))"


section \<open>The words of the specification\<close>

text \<open>
  The arguments pass the validation of the experiment types and of the media types:
  neither list is empty, every experiment type is one of the two known ones, and every
  media type is a substring of one of the five known ones.
\<close>

definition valid_types :: "string list \<Rightarrow> string list \<Rightarrow> bool" where
  "valid_types experiment_types media_types =
     (experiment_types \<noteq> [] \<and> media_types \<noteq> [] \<and>
      set experiment_types \<subseteq> {''emg_gestures'', ''emg_force''} \<and>
      (\<forall>m\<in>set media_types. \<exists>t\<in>set MEDIA_TYPES. sublist m t))"

text \<open>Every line of the manifest is parsed; the parsed records; the observed IDs.\<close>

definition manifest_ok :: "string list \<Rightarrow> bool" where
  "manifest_ok lines = (\<forall>l\<in>set lines. parse_record l \<noteq> Inl (Warning ''Wrong record'' l))"

definition parsed_records :: "string list \<Rightarrow> record_meta list" where
  "parsed_records lines =
     concat (map (\<lambda>l. case parse_record l of Inl e \<Rightarrow> [] | Inr r \<Rightarrow> [r]) lines)"

definition observed_ids :: "string list \<Rightarrow> string set" where
  "observed_ids lines = set (map r_id (parsed_records lines))"

text \<open>
  The effective ID set: the intersection of the observed and the requested IDs when IDs
  are requested, all observed IDs otherwise.
\<close>

definition effective_ids :: "string set \<Rightarrow> string set \<Rightarrow> string set" where
  "effective_ids observed requested =
     (if requested \<noteq> {} then observed \<inter> requested else observed)"

text \<open>The two exits of the ID validation; the specification's \<open>InvalidIdError\<close>.\<close>

definition is_id_error :: "early \<Rightarrow> bool" where
  "is_id_error e = (case e of InvalidId i \<Rightarrow> True | IdNotAvailable i \<Rightarrow> True | _ \<Rightarrow> False)"

text \<open>
  The table of section 4.3 of the specification: the directory and the extension of each
  of the five media types.
\<close>

definition media_dir :: "string \<Rightarrow> string" where
  "media_dir m =
     (if m = ''data-csv'' then ''Data-CSV'' else if m = ''data-hdf5'' then ''Data-HDF5''
      else if m = ''depth'' then ''Depth'' else if m = ''video-1080p'' then ''Video-1080p''
      else if m = ''video-576p'' then ''Video-576p'' else [])"

definition media_ext :: "string \<Rightarrow> string" where
  "media_ext m =
     (if m = ''data-csv'' then ''zip'' else if m = ''data-hdf5'' then ''hdf5''
      else if m = ''depth'' then ''zip'' else if m = ''video-1080p'' then ''mp4''
      else if m = ''video-576p'' then ''mp4'' else [])"

section \<open>Example inputs\<close>

text \<open>
  The manifest of the scenario of section 8 of the specification, a manifest whose second
  line has a one-digit ID and no date, and a world with no file and no directory.
\<close>

definition example_manifest :: "string list" where
  "example_manifest =
     [''emg_gestures-03-walk-2020-01-01-12-00-00-000'',
      ''emg_force-07-sit-2020-02-02-08-30-00-500'']"

definition example_remote :: remote where
  "example_remote = \<lparr>records_txt = example_manifest, content = (\<lambda>url. ''data'')\<rparr>"

definition broken_remote :: remote where
  "broken_remote =
     \<lparr>records_txt = [''emg_gestures-03-walk-2020-01-01-12-00-00-000'', ''emg_force-7-sit''],
      content = (\<lambda>url. ''data'')\<rparr>"

definition empty_world :: world where
  "empty_world = \<lparr>files = Map.empty, dirs = {}, calls = []\<rparr>"


section \<open>Notions used in the proofs\<close>

text \<open>A line has a prefix that matches the record grammar.\<close>

definition grammar_prefix :: "string \<Rightarrow> bool" where
  "grammar_prefix line = (\<exists>p junk. matches_grammar p \<and> line = p @ junk)"

text \<open>The first way in which the tokens match, when there is one.\<close>

definition heads :: "tok list \<Rightarrow> string \<Rightarrow> string list \<Rightarrow> string \<Rightarrow> bool" where
  "heads ts s ps rest = (\<exists>ms. rx_match ts False s = (ps, rest) # ms)"

text \<open>The text a token may consume.\<close>

fun tok_ok :: "tok \<Rightarrow> string \<Rightarrow> bool" where
  "tok_ok (Lit c) p = (p = [c])"
| "tok_ok (Star k) p = list_all (in_cls k) p"
| "tok_ok (Rep k n) p = (length p = n \<and> list_all (in_cls k) p)"
| "tok_ok _ p = (p = [])"

section \<open>The matcher\<close>
lemma rx_match_flag: "Caret \<notin> set ts \<Longrightarrow> rx_match ts b s = rx_match ts False s"
proof (induction ts b s rule: rx_match.induct)
  case (4 c ts b s)
  then show ?case by (simp split: list.splits)
next
  case (6 k ts b s)
  have "rx_match ts (b \<and> j = 0) (drop j s) = rx_match ts False (drop j s)"
    if "j \<in> set (rev [0..<Suc (length (takeWhile (in_cls k) s))])" for j
    using 6 that by simp
  then have "map (\<lambda>j. map (piece (take j s)) (rx_match ts (b \<and> j = 0) (drop j s)))
          (rev [0..<Suc (length (takeWhile (in_cls k) s))]) =
        map (\<lambda>j. map (piece (take j s)) (rx_match ts False (drop j s)))
          (rev [0..<Suc (length (takeWhile (in_cls k) s))])"
    by (intro map_cong refl) simp
  then show ?case by (simp only: rx_match.simps simp_thms)
qed simp_all

lemma map_filter_None: "(\<And>x. x \<in> set xs \<Longrightarrow> f x = None) \<Longrightarrow> List.map_filter f xs = []"
  by (induction xs) (simp_all add: List.map_filter_simps)

lemma re_search_Caret: "re_search (Caret # ts) s = first_match (Caret # ts) True s"
proof -
  have "[0..<Suc (length s)] = 0 # [1..<Suc (length s)]"
    by (subst upt_rec) simp
  moreover have "List.map_filter (\<lambda>i. first_match (Caret # ts) (i = 0) (drop i s)) [1..<Suc (length s)] = []"
    by (rule map_filter_None) (auto simp: first_match_def)
  ultimately show ?thesis
    by (simp add: re_search_def List.map_filter_simps del: upt_Suc split: option.splits)
qed

lemma heads_Nil: "heads [] s [] s"
  by (simp add: heads_def)

lemma heads_Open: "heads ts s ps rest \<Longrightarrow> heads (Open g # ts) s ([] # ps) rest"
  by (auto simp: heads_def piece_def)

lemma heads_Close: "heads ts s ps rest \<Longrightarrow> heads (Close g # ts) s ([] # ps) rest"
  by (auto simp: heads_def piece_def)

lemma heads_Lit: "heads ts s ps rest \<Longrightarrow> heads (Lit c # ts) (c # s) ([c] # ps) rest"
  by (auto simp: heads_def piece_def)

lemma heads_Rep:
  assumes "heads ts s ps rest" "length p = n" "list_all (in_cls k) p"
  shows "heads (Rep k n # ts) (p @ s) (p # ps) rest"
  using assms by (auto simp: heads_def piece_def)

lemma heads_Star:
  assumes "heads ts s ps rest" "list_all (in_cls k) p" "s = [] \<or> \<not> in_cls k (hd s)"
  shows "heads (Star k # ts) (p @ s) (p # ps) rest"
proof -
  have tw: "takeWhile (in_cls k) (p @ s) = p"
    using assms(2,3) by (cases s) (auto simp: list_all_iff takeWhile_append2 takeWhile_eq_all_conv)
  obtain ms where ms: "rx_match ts False s = (ps, rest) # ms"
    using assms(1) by (auto simp: heads_def)
  have "rev [0..<Suc (length p)] = length p # rev [0..<length p]" by simp
  then show ?thesis
    unfolding heads_def by (simp add: tw ms piece_def del: upt_Suc)
qed


lemma dash_not_cls: "\<not> in_cls k CHR ''-''"
  by (cases k) (simp_all add: in_range_def)

lemma wf_date_split:
  assumes "wf_date d"
  obtains y m dd where "d = y @ CHR ''-'' # m @ CHR ''-'' # dd"
    "digits 4 y" "digits 2 m" "digits 2 dd"
proof -
  have "length d = 10" using assms by (simp add: wf_date_def)
  then obtain a b c e f g h i j k where d: "d = [a, b, c, e, f, g, h, i, j, k]"
    by (auto simp: numeral_eq_Suc length_Suc_conv)
  show ?thesis
    using assms that [of "[a, b, c, e]" "[g, h]" "[j, k]"]
    by (simp add: d wf_date_def digits_def)
qed

lemma wf_time_split:
  assumes "wf_time t"
  obtains h m s ms where "t = h @ CHR ''-'' # m @ CHR ''-'' # s @ CHR ''-'' # ms"
    "digits 2 h" "digits 2 m" "digits 2 s" "digits 3 ms"
proof -
  have "length t = 12" using assms by (simp add: wf_time_def)
  then obtain a b c e f g h i j k l n where t: "t = [a, b, c, e, f, g, h, i, j, k, l, n]"
    by (auto simp: numeral_eq_Suc length_Suc_conv)
  show ?thesis
    using assms that [of "[a, b]" "[e, f]" "[h, i]" "[k, l, n]"]
    by (simp add: t wf_time_def digits_def)
qed


lemma first_match_Caret:
  assumes "Caret \<notin> set ts" "heads ts s ps rest"
  shows "first_match (Caret # ts) True s = Some (zip (Caret # ts) ([] # ps))"
  using assms by (auto simp: heads_def first_match_def piece_def rx_match_flag [of ts True])

lemma parse_record_prefix:
  assumes "well_formed r"
  shows "parse_record (record_name r @ junk) = Inr r"
proof -
  from assms have w: "list_all (in_cls Word) (r_type r)" "digits 2 (r_id r)"
    "list_all (in_cls Word) (r_trajectory r)" "wf_date (r_date r)" "wf_time (r_time r)"
    by (simp_all add: well_formed_def)
  from w(4) obtain y m dd where d: "r_date r = y @ CHR ''-'' # m @ CHR ''-'' # dd"
    and dd: "digits 4 y" "digits 2 m" "digits 2 dd"
    by (rule wf_date_split)
  from w(5) obtain h mi s ms where t: "r_time r = h @ CHR ''-'' # mi @ CHR ''-'' # s @ CHR ''-'' # ms"
    and tt: "digits 2 h" "digits 2 mi" "digits 2 s" "digits 3 ms"
    by (rule wf_time_split)
  let ?s = "r_type r @ CHR ''-'' # r_id r @ CHR ''-'' # r_trajectory r @ CHR ''-'' #
            y @ CHR ''-'' # m @ CHR ''-'' # dd @ CHR ''-'' #
            h @ CHR ''-'' # mi @ CHR ''-'' # s @ CHR ''-'' # ms @ junk"
  have name: "record_name r @ junk = ?s"
    by (simp add: record_name_def d t)
  have "heads (tl experiment_name_regexp) ?s
          [[], r_type r, [], ''-'', [], r_id r, [], ''-'', [], r_trajectory r, [], ''-'',
           [], y, ''-'', m, ''-'', dd, [], ''-'', [], h, ''-'', mi, ''-'', s, ''-'', ms, []] junk"
    unfolding experiment_name_regexp_def list.sel
    using w(1,2,3) dd tt
    by (intro heads_Open heads_Close heads_Lit heads_Star heads_Rep heads_Nil)
       (simp_all add: digits_def dash_not_cls)
  then have "first_match experiment_name_regexp True ?s =
     Some (zip experiment_name_regexp
          [[], [], r_type r, [], ''-'', [], r_id r, [], ''-'', [], r_trajectory r, [], ''-'',
           [], y, ''-'', m, ''-'', dd, [], ''-'', [], h, ''-'', mi, ''-'', s, ''-'', ms, []])"
    using first_match_Caret [of "tl experiment_name_regexp" ?s]
    by (simp add: experiment_name_regexp_def)
  then show ?thesis
    unfolding parse_record_def name
    by (simp add: experiment_name_regexp_def re_search_Caret d t)
qed


lemma take_takeWhile_all: "j \<le> length (takeWhile P s) \<Longrightarrow> list_all P (take j s)"
proof -
  assume j: "j \<le> length (takeWhile P s)"
  have "take j s = take j (takeWhile P s @ dropWhile P s)" by simp
  also have "\<dots> = take j (takeWhile P s)" using j by (simp del: takeWhile_dropWhile_id)
  finally show ?thesis
    by (metis in_set_takeD list_all_iff set_takeWhileD)
qed

lemma rx_match_sound:
  "(ps, rest) \<in> set (rx_match ts b s) \<Longrightarrow> list_all2 tok_ok ts ps \<and> s = concat ps @ rest"
proof (induction ts b s arbitrary: ps rule: rx_match.induct)
  case (1 b s)
  then show ?case by simp
next
  case (2 ts b s)
  then show ?case by (auto simp: piece_def split: if_splits)
next
  case (3 ts b s)
  then show ?case by (auto simp: piece_def split: if_splits)
next
  case (4 c ts b s)
  then show ?case by (auto simp: piece_def split: if_splits list.splits)
next
  case (5 k n ts b s)
  then show ?case by (auto simp: piece_def split: if_splits)
next
  case (6 k ts b s)
  from 6(2) obtain j m where j: "j \<le> length (takeWhile (in_cls k) s)"
    and m: "m \<in> set (rx_match ts (b \<and> j = 0) (drop j s))" and e: "(ps, rest) = piece (take j s) m"
    by (auto simp del: upt_Suc simp: less_Suc_eq_le)
  from j have jj: "j \<in> set (rev [0..<Suc (length (takeWhile (in_cls k) s))])" by auto
  obtain qs where qs: "m = (qs, rest)" "ps = take j s # qs"
    using e by (cases m) (simp add: piece_def)
  from 6(1) [OF jj, of qs] m qs
  have "list_all2 tok_ok ts qs \<and> drop j s = concat qs @ rest" by simp
  with j qs show ?case
    by (simp add: take_takeWhile_all) (metis append_take_drop_id)
next
  case (7 g ts b s)
  then show ?case by (auto simp: piece_def)
next
  case (8 g ts b s)
  then show ?case by (auto simp: piece_def)
qed


lemma first_match_sound:
  assumes "first_match ts b s = Some tags"
  obtains ps rest where "tags = zip ts ps" "list_all2 tok_ok ts ps" "s = concat ps @ rest"
proof -
  from assms obtain m ms where m: "rx_match ts b s = m # ms" "tags = zip ts (fst m)"
    by (auto simp: first_match_def split: list.splits)
  then have "(fst m, snd m) \<in> set (rx_match ts b s)" by simp
  from rx_match_sound [OF this] m(2) that show ?thesis by blast
qed

lemma parse_record_sound:
  assumes "parse_record s = Inr r"
  shows "well_formed r \<and> (\<exists>junk. s = record_name r @ junk)"
proof -
  from assms obtain tags where tags: "first_match experiment_name_regexp True s = Some tags"
    and r: "r = \<lparr>r_type = group ''type'' False tags, r_id = group ''id'' False tags,
               r_trajectory = group ''trajectory'' False tags,
               r_date = group ''date'' False tags, r_time = group ''time'' False tags\<rparr>"
    by (auto simp: parse_record_def experiment_name_regexp_def re_search_Caret split: option.splits)
  from tags obtain ps rest where ps: "tags = zip experiment_name_regexp ps"
    "list_all2 tok_ok experiment_name_regexp ps" "s = concat ps @ rest"
    by (rule first_match_sound)
  from ps(2) obtain t i tr y m dd h mi sec ms where
    pss: "ps = [[], [], t, [], ''-'', [], i, [], ''-'', [], tr, [], ''-'',
           [], y, ''-'', m, ''-'', dd, [], ''-'', [], h, ''-'', mi, ''-'', sec, ''-'', ms, []]"
    and ok: "list_all (in_cls Word) t" "digits 2 i" "list_all (in_cls Word) tr"
      "digits 4 y" "digits 2 m" "digits 2 dd" "digits 2 h" "digits 2 mi" "digits 2 sec" "digits 3 ms"
    by (auto simp: experiment_name_regexp_def list_all2_Cons1 digits_def)
  have rr: "r = \<lparr>r_type = t, r_id = i, r_trajectory = tr,
               r_date = y @ ''-'' @ m @ ''-'' @ dd, r_time = h @ ''-'' @ mi @ ''-'' @ sec @ ''-'' @ ms\<rparr>"
    by (simp add: r ps(1) pss experiment_name_regexp_def)
  have "well_formed r"
    using ok by (simp add: rr well_formed_def wf_date_def wf_time_def digits_def nth_append)
  moreover have "s = record_name r @ rest"
    by (simp add: ps(3) pss rr record_name_def)
  ultimately show ?thesis by blast
qed

section \<open>The loops and the early exits\<close>

lemma parse_record_Inl: "parse_record l = Inl e \<Longrightarrow> e = Warning ''Wrong record'' l"
  by (auto simp: parse_record_def split: option.splits)

lemma parse_record_fails_iff:
  "parse_record l = Inl (Warning ''Wrong record'' l) \<longleftrightarrow> \<not> grammar_prefix l"
proof
  assume "parse_record l = Inl (Warning ''Wrong record'' l)"
  then show "\<not> grammar_prefix l"
    using parse_record_prefix by (fastforce simp: grammar_prefix_def matches_grammar_def)
next
  assume n: "\<not> grammar_prefix l"
  show "parse_record l = Inl (Warning ''Wrong record'' l)"
  proof (cases "parse_record l")
    case (Inl e)
    then show ?thesis using parse_record_Inl by blast
  next
    case (Inr r)
    from parse_record_sound [OF this] n show ?thesis
      by (auto simp: grammar_prefix_def matches_grammar_def)
  qed
qed

lemma parse_loop_find:
  "parse_loop ls rs ids =
     (case find (\<lambda>l. parse_record l = Inl (Warning ''Wrong record'' l)) ls of
        None \<Rightarrow> Inr (rs @ parsed_records ls, ids \<union> observed_ids ls)
      | Some l \<Rightarrow> Inl (Warning ''Wrong record'' l))"
proof (induction ls arbitrary: rs ids)
  case Nil
  then show ?case by (simp add: parsed_records_def observed_ids_def)
next
  case (Cons l ls)
  show ?case
  proof (cases "parse_record l")
    case (Inl e)
    with parse_record_Inl [OF Inl] show ?thesis by simp
  next
    case (Inr r)
    then show ?thesis
      by (simp add: Cons parsed_records_def observed_ids_def split: option.splits)
  qed
qed

lemma manifest_ok_find:
  "manifest_ok ls \<longleftrightarrow> find (\<lambda>l. parse_record l = Inl (Warning ''Wrong record'' l)) ls = None"
  by (auto simp: manifest_ok_def find_None_iff)

lemma find_first:
  "\<forall>g\<in>set good. \<not> P g \<Longrightarrow> P l \<Longrightarrow> find P (good @ l # rest) = Some l"
  by (induction good) simp_all

lemma check_experiment_types_None:
  "check_experiment_types es = None \<longleftrightarrow> set es \<subseteq> {''emg_gestures'', ''emg_force''}"
  by (auto simp: check_experiment_types_def find_None_iff)

lemma media_type_ok_iff: "media_type_ok m \<longleftrightarrow> (\<exists>t\<in>set MEDIA_TYPES. sublist m t)"
  by (simp add: media_type_ok_def list_ex_iff)

lemma check_media_types_None:
  "check_media_types ms = None \<longleftrightarrow> (\<forall>m\<in>set ms. \<exists>t\<in>set MEDIA_TYPES. sublist m t)"
  by (auto simp: check_media_types_def find_None_iff media_type_ok_iff)

lemma valid_types_checks:
  "valid_types es ms \<longleftrightarrow>
     es \<noteq> [] \<and> ms \<noteq> [] \<and> check_experiment_types es = None \<and> check_media_types ms = None"
  by (simp add: valid_types_def check_experiment_types_None check_media_types_None)

lemma ids_loop_find:
  "ids_loop ds ids req =
     (case find (\<lambda>i. re_match id_regexp i = None \<or> i \<notin> ids) ds of
        None \<Rightarrow> Inr (req \<union> set ds)
      | Some i \<Rightarrow> Inl (if re_match id_regexp i = None then InvalidId i else IdNotAvailable i))"
  by (induction ds arbitrary: req) (auto split: option.splits)


lemma observed_ids_digits: "i \<in> observed_ids ls \<Longrightarrow> digits 2 i"
proof -
  assume "i \<in> observed_ids ls"
  then obtain l r where "parse_record l = Inr r" "i = r_id r"
    by (auto simp: observed_ids_def parsed_records_def split: sum.splits) metis
  with parse_record_sound [of l r] show ?thesis by (simp add: well_formed_def)
qed


lemma select_ids_find:
  "select_ids ds obs =
     (case find (\<lambda>i. re_match id_regexp i = None \<or> i \<notin> obs) ds of
        None \<Rightarrow> Inr (effective_ids obs (set ds))
      | Some i \<Rightarrow> Inl (if re_match id_regexp i = None then InvalidId i else IdNotAvailable i))"
  by (cases ds) (auto simp: select_ids_def ids_loop_find effective_ids_def split: option.splits)

section \<open>The world after the file and network operations\<close>

lemma fold_http_get:
  "fold (\<lambda>t. http_get (task_url t)) ts w =
     w\<lparr>calls := calls w @ map (\<lambda>t. HttpGet (task_url t)) ts\<rparr>"
  by (induction ts arbitrary: w) (simp_all add: http_get_def)

lemma store_all_calls: "calls (snd (store_all net ts w)) = calls w"
  by (induction ts arbitrary: w) (auto simp: store_def split: sum.splits if_splits)

lemma store_all_dirs: "dirs (snd (store_all net ts w)) = dirs w"
  by (induction ts arbitrary: w) (auto simp: store_def split: sum.splits if_splits)

lemma store_all_None:
  "\<forall>t\<in>set ts. task_dir t \<in> dirs w \<Longrightarrow> fst (store_all net ts w) = None"
  by (induction ts arbitrary: w) (auto simp: store_def)

lemma store_all_isfile:
  "fst (store_all net ts w) = None \<Longrightarrow>
     isfile (snd (store_all net ts w)) p \<longleftrightarrow> isfile w p \<or> p \<in> task_path ` set ts"
proof (induction ts arbitrary: w)
  case Nil
  then show ?case by simp
next
  case (Cons t ts)
  show ?case
  proof (cases "task_dir t \<in> dirs w")
    case True
    with Cons.prems Cons.IH [of "w\<lparr>files := (files w)(task_path t \<mapsto> content net (task_url t))\<rparr>"]
    show ?thesis by (auto simp: store_def isfile_def)
  next
    case False
    with Cons.prems show ?thesis by (simp add: store_def)
  qed
qed


lemma gather_snd:
  "snd (gather net tasks w) =
     snd (store_all net (filter (\<lambda>t. \<not> isfile w (task_path t)) tasks)
       (fold (\<lambda>t. http_get (task_url t)) (filter (\<lambda>t. \<not> isfile w (task_path t)) tasks) w))"
  by (cases "store_all net (filter (\<lambda>t. \<not> isfile w (task_path t)) tasks)
       (fold (\<lambda>t. http_get (task_url t)) (filter (\<lambda>t. \<not> isfile w (task_path t)) tasks) w)")
     (auto simp: gather_def Let_def split: option.splits)

lemma gather_calls:
  "calls (snd (gather net tasks w)) =
     calls w @ map (\<lambda>t. HttpGet (task_url t)) (filter (\<lambda>t. \<not> isfile w (task_path t)) tasks)"
  by (simp add: gather_snd store_all_calls fold_http_get)

lemma gather_dirs: "dirs (snd (gather net tasks w)) = dirs w"
  by (simp add: gather_snd store_all_dirs fold_http_get)

lemma gather_dirs_exist:
  assumes "\<forall>t\<in>set tasks. task_dir t \<in> dirs w"
  shows "fst (gather net tasks w) =
       Inr (map (\<lambda>t. if isfile w (task_path t) then Skipped else Stored) tasks)"
    and "t \<in> set tasks \<Longrightarrow> isfile (snd (gather net tasks w)) (task_path t)"
proof -
  let ?started = "filter (\<lambda>t. \<not> isfile w (task_path t)) tasks"
  let ?w1 = "fold (\<lambda>t. http_get (task_url t)) ?started w"
  have c: "isfile (w\<lparr>calls := cs\<rparr>) p = isfile w p" for cs p
    by (simp add: isfile_def)
  from assms have "\<forall>t\<in>set ?started. task_dir t \<in> dirs ?w1"
    by (simp add: fold_http_get)
  then have n: "fst (store_all net ?started ?w1) = None"
    by (rule store_all_None)
  then show "fst (gather net tasks w) =
       Inr (map (\<lambda>t. if isfile w (task_path t) then Skipped else Stored) tasks)"
    by (cases "store_all net ?started ?w1") (auto simp: gather_def Let_def)
  assume "t \<in> set tasks"
  with store_all_isfile [OF n, of "task_path t"]
  show "isfile (snd (gather net tasks w)) (task_path t)"
    by (auto simp: gather_snd fold_http_get c)
qed

lemma record_tasks_dirs:
  "t \<in> set (record_tasks M r) \<Longrightarrow> task_dir t \<in> dirs (make_dirs M w)"
  by (auto simp: record_tasks_def make_dirs_def makedirs_def Let_def task_dir_def
        split: if_splits)

lemma gather_in_download:
  "fst (gather net (all_tasks E M ids rs) (make_dirs M w)) =
     Inr (map (\<lambda>t. if isfile (make_dirs M w) (task_path t) then Skipped else Stored)
       (all_tasks E M ids rs))"
  by (rule gather_dirs_exist) (auto simp: all_tasks_def record_tasks_dirs)

lemma download_invalid_types:
  assumes "\<not> valid_types es ms"
  shows "\<exists>e. download es ms ds net w = (Returned (Some e) (), w) \<and> \<not> is_id_error e \<and>
     get_records_dataframe es ms ds net w = (Returned (Some e) (DataFrame []), w)"
  using assms unfolding valid_types_checks download_def get_records_dataframe_def
  by (auto simp: is_id_error_def create_dataframe_from_records_meta_def split: option.splits)

lemma download_valid_types:
  assumes "valid_types es ms"
  shows "download es ms ds net w =
     (case find (\<lambda>l. parse_record l = Inl (Warning ''Wrong record'' l)) (records_txt net) of
        Some l \<Rightarrow> (Raised (Warning ''Wrong record'' l), snd (fetch_manifest net w))
      | None \<Rightarrow>
        (case select_ids ds (observed_ids (records_txt net)) of
           Inl e \<Rightarrow> (Returned (Some e) (), snd (fetch_manifest net w))
         | Inr ids \<Rightarrow> (Returned None (),
             snd (gather net (all_tasks (set es) (set ms) ids (parsed_records (records_txt net)))
               (make_dirs (set ms) (snd (fetch_manifest net w)))))))"
proof -
  have g: "(case gather net tasks v of (Inl e, w3) \<Rightarrow> (Raised e, w3)
            | (Inr fetched, w3) \<Rightarrow> (Returned None (), w3)) =
       (Returned None (), snd (gather net tasks v))"
    if "fst (gather net tasks v) = Inr fs" for tasks v fs
    using that by (cases "gather net tasks v") simp
  show ?thesis
    using assms unfolding valid_types_checks download_def
    by (simp add: parse_loop_find fetch_manifest_def g [OF gather_in_download]
          split: option.splits sum.splits)
qed

lemma get_records_dataframe_valid_types:
  assumes "valid_types es ms"
  shows "get_records_dataframe es ms ds net w =
     (case find (\<lambda>l. parse_record l = Inl (Warning ''Wrong record'' l)) (records_txt net) of
        Some l \<Rightarrow> (Raised (Warning ''Wrong record'' l), snd (fetch_manifest net w))
      | None \<Rightarrow>
        (case select_ids ds (observed_ids (records_txt net)) of
           Inl e \<Rightarrow> (Returned (Some e) (BareList []), snd (fetch_manifest net w))
         | Inr ids \<Rightarrow> (Returned None
             (DataFrame (matched (set es) ids (parsed_records (records_txt net)))),
             snd (fetch_manifest net w))))"
  using assms unfolding valid_types_checks get_records_dataframe_def
  by (simp add: parse_loop_find fetch_manifest_def create_dataframe_from_records_meta_def
        split: option.splits sum.splits)

lemma valid_types_example: "valid_types [''emg_gestures''] [''data-csv'']" by code_simp
lemma manifest_ok_example: "manifest_ok example_manifest" by code_simp
lemma parse_record_short_id: "parse_record ''emg_force-7-sit'' = Inl (Warning ''Wrong record'' ''emg_force-7-sit'')" by code_simp
lemma observed_ids_example: "observed_ids example_manifest = {''03'', ''07''}" by code_simp

lemma canonical_name_iff: "canonical_name name \<longleftrightarrow> matches_grammar name"
proof
  assume "canonical_name name"
  then obtain t i tr y mo d h mi sec ms where
    n: "name = t @ ''-'' @ i @ ''-'' @ tr @ ''-'' @ y @ ''-'' @ mo @ ''-'' @ d @ ''-'' @
               h @ ''-'' @ mi @ ''-'' @ sec @ ''-'' @ ms"
    and ok: "list_all (in_cls Word) t" "digits 2 i" "list_all (in_cls Word) tr"
      "digits 4 y" "digits 2 mo" "digits 2 d" "digits 2 h" "digits 2 mi" "digits 2 sec"
      "digits 3 ms"
    unfolding canonical_name_def by blast
  let ?r = "\<lparr>r_type = t, r_id = i, r_trajectory = tr,
      r_date = y @ ''-'' @ mo @ ''-'' @ d, r_time = h @ ''-'' @ mi @ ''-'' @ sec @ ''-'' @ ms\<rparr>"
  have "well_formed ?r"
    using ok by (simp add: well_formed_def wf_date_def wf_time_def digits_def nth_append)
  moreover have "name = record_name ?r"
    by (simp add: n record_name_def)
  ultimately show "matches_grammar name"
    unfolding matches_grammar_def by blast
next
  assume "matches_grammar name"
  then obtain r where r: "well_formed r" "name = record_name r"
    by (auto simp: matches_grammar_def)
  from r(1) have w: "list_all (in_cls Word) (r_type r)" "digits 2 (r_id r)"
    "list_all (in_cls Word) (r_trajectory r)" "wf_date (r_date r)" "wf_time (r_time r)"
    by (simp_all add: well_formed_def)
  from w(4) obtain y mo d where d: "r_date r = y @ CHR ''-'' # mo @ CHR ''-'' # d"
    "digits 4 y" "digits 2 mo" "digits 2 d"
    by (rule wf_date_split)
  from w(5) obtain h mi sec ms where
    t: "r_time r = h @ CHR ''-'' # mi @ CHR ''-'' # sec @ CHR ''-'' # ms"
    "digits 2 h" "digits 2 mi" "digits 2 sec" "digits 3 ms"
    by (rule wf_time_split)
  have "name = r_type r @ ''-'' @ r_id r @ ''-'' @ r_trajectory r @ ''-'' @ y @ ''-'' @ mo @
      ''-'' @ d @ ''-'' @ h @ ''-'' @ mi @ ''-'' @ sec @ ''-'' @ ms"
    by (simp add: r(2) record_name_def d(1) t(1))
  with w(1,2,3) d(2,3,4) t(2,3,4,5) show "canonical_name name"
    unfolding canonical_name_def by blast
qed

section \<open>Claims about parse_record\<close>

text \<open>
  C5. Every canonical name \<open>type-id-trajectory-YYYY-MM-DD-HH-MM-SS-mmm\<close> (type and
  trajectory of word characters, a two-digit ID, the date and the time of digits in that
  shape) is parsed, and formatting the five fields of the parsed record as line 155 does
  gives the name back: \<open>format(parse(name)) == name\<close>. Conversely the format of a
  well-formed record is a canonical name, and parsing it gives the record back.
\<close>

theorem parse_record_roundtrip:
  "(canonical_name name \<longrightarrow>
      (\<exists>r. parse_record name = Inr r \<and> well_formed r \<and> record_name r = name)) \<and>
   (well_formed r \<longrightarrow>
      canonical_name (record_name r) \<and> parse_record (record_name r) = Inr r)"
  using parse_record_prefix [of _ "[]"] canonical_name_iff
  by (auto simp: matches_grammar_def)

theorem parse_record_roundtrip_witness:
  "canonical_name ''emg_gestures-03-walk-2020-01-01-12-00-00-000'' \<and>
   well_formed \<lparr>r_type = ''emg_gestures'', r_id = ''03'', r_trajectory = ''walk'',
      r_date = ''2020-01-01'', r_time = ''12-00-00-000''\<rparr> \<and>
   parse_record ''emg_gestures-03-walk-2020-01-01-12-00-00-000'' =
     Inr \<lparr>r_type = ''emg_gestures'', r_id = ''03'', r_trajectory = ''walk'',
      r_date = ''2020-01-01'', r_time = ''12-00-00-000''\<rparr> \<and>
   (\<exists>r. parse_record ''emg_gestures-03-walk-2020-01-01-12-00-00-000'' = Inr r \<and> well_formed r \<and>
        record_name r = ''emg_gestures-03-walk-2020-01-01-12-00-00-000'')"
proof -
  have w: "well_formed \<lparr>r_type = ''emg_gestures'', r_id = ''03'', r_trajectory = ''walk'',
      r_date = ''2020-01-01'', r_time = ''12-00-00-000''\<rparr>"
    by code_simp
  have n: "record_name \<lparr>r_type = ''emg_gestures'', r_id = ''03'', r_trajectory = ''walk'',
      r_date = ''2020-01-01'', r_time = ''12-00-00-000''\<rparr> =
      ''emg_gestures-03-walk-2020-01-01-12-00-00-000''"
    by (simp add: record_name_def)
  note a = parse_record_roundtrip [of "''emg_gestures-03-walk-2020-01-01-12-00-00-000''"
      "\<lparr>r_type = ''emg_gestures'', r_id = ''03'', r_trajectory = ''walk'',
      r_date = ''2020-01-01'', r_time = ''12-00-00-000''\<rparr>"]
  from a w have c: "canonical_name ''emg_gestures-03-walk-2020-01-01-12-00-00-000''"
    unfolding n by blast
  from a w have p: "parse_record ''emg_gestures-03-walk-2020-01-01-12-00-00-000'' =
     Inr \<lparr>r_type = ''emg_gestures'', r_id = ''03'', r_trajectory = ''walk'',
      r_date = ''2020-01-01'', r_time = ''12-00-00-000''\<rparr>"
    unfolding n by blast
  from a c have "\<exists>r. parse_record ''emg_gestures-03-walk-2020-01-01-12-00-00-000'' = Inr r \<and>
      well_formed r \<and> record_name r = ''emg_gestures-03-walk-2020-01-01-12-00-00-000''"
    by blast
  with c w p show ?thesis by blast
qed

text \<open>
  C8. The pattern is anchored at the start only: a line that continues a name matching
  the record grammar with any further characters is parsed into the record of the name,
  the further characters are dropped, and formatting the record does not give the line
  back unless there are none.
\<close>

theorem parse_record_trailing:
  "matches_grammar p \<Longrightarrow>
     (\<exists>r. parse_record (p @ junk) = Inr r \<and> record_name r = p \<and>
          (junk \<noteq> [] \<longrightarrow> record_name r \<noteq> p @ junk))"
  using parse_record_prefix [of _ junk] by (auto simp: matches_grammar_def)

theorem parse_record_trailing_witness:
  "matches_grammar ''emg_force-07-sit-2020-02-02-08-30-00-500'' \<and>
   (\<exists>r. parse_record (''emg_force-07-sit-2020-02-02-08-30-00-500'' @ ''.zip'') = Inr r \<and>
        record_name r = ''emg_force-07-sit-2020-02-02-08-30-00-500'' \<and>
        record_name r \<noteq> ''emg_force-07-sit-2020-02-02-08-30-00-500'' @ ''.zip'')"
proof -
  have "well_formed \<lparr>r_type = ''emg_force'', r_id = ''07'', r_trajectory = ''sit'',
      r_date = ''2020-02-02'', r_time = ''08-30-00-500''\<rparr>"
    by code_simp
  then have m: "matches_grammar ''emg_force-07-sit-2020-02-02-08-30-00-500''"
    unfolding matches_grammar_def
    by (rule_tac x = "\<lparr>r_type = ''emg_force'', r_id = ''07'', r_trajectory = ''sit'',
      r_date = ''2020-02-02'', r_time = ''08-30-00-500''\<rparr>" in exI) (simp add: record_name_def)
  from m parse_record_trailing [OF m, of "''.zip''"] show ?thesis by auto
qed

text \<open>
  C7, as stated: every line that does not match the record grammar makes \<open>parse_record\<close>
  raise. It fails for a line that continues a canonical name: the line does not match
  the grammar, and \<open>parse_record\<close> returns the record of the name.
\<close>

theorem malformed_line_counterexample:
  "\<not> matches_grammar ''emg_gestures-03-walk-2020-01-01-12-00-00-000.zip'' \<and>
   parse_record ''emg_gestures-03-walk-2020-01-01-12-00-00-000.zip'' =
     Inr \<lparr>r_type = ''emg_gestures'', r_id = ''03'', r_trajectory = ''walk'',
          r_date = ''2020-01-01'', r_time = ''12-00-00-000''\<rparr>"
proof
  let ?L = "''emg_gestures-03-walk-2020-01-01-12-00-00-000.zip''"
  have p: "parse_record ?L = Inr \<lparr>r_type = ''emg_gestures'', r_id = ''03'', r_trajectory = ''walk'',
          r_date = ''2020-01-01'', r_time = ''12-00-00-000''\<rparr>"
    by code_simp
  show "\<not> matches_grammar ?L"
  proof
    assume "matches_grammar ?L"
    then obtain r where r: "well_formed r" "?L = record_name r"
      by (auto simp: matches_grammar_def)
    from parse_record_prefix [OF r(1), of "[]"] r(2) p
    have "r = \<lparr>r_type = ''emg_gestures'', r_id = ''03'', r_trajectory = ''walk'',
          r_date = ''2020-01-01'', r_time = ''12-00-00-000''\<rparr>" by simp
    with r(2) show False by (simp add: record_name_def)
  qed
  show "parse_record ?L = Inr \<lparr>r_type = ''emg_gestures'', r_id = ''03'', r_trajectory = ''walk'',
          r_date = ''2020-01-01'', r_time = ''12-00-00-000''\<rparr>"
    by (rule p)
qed

text \<open>
  C7, amended: a line of which no prefix matches the record grammar makes \<open>parse_record\<close>
  raise \<open>Warning("Wrong record", line)\<close>, with no record. When such a line is the first
  of its kind in the manifest and the experiment and media types are valid, \<open>download\<close>
  and \<open>get_records_dataframe\<close> end with that exception after the GET of the manifest and
  nothing else. Whatever the arguments, a manifest with such a line lets neither function
  reach its end: \<open>download\<close> leaves the world as it was, or with the GET of the manifest
  only (no directory, no file, no request for an artifact), and \<open>get_records_dataframe\<close>
  returns no matched records.
\<close>

theorem malformed_line_aborts:
  assumes "\<not> grammar_prefix line"
  shows "parse_record line = Inl (Warning ''Wrong record'' line) \<and>
     (records_txt net = good @ line # rest \<and> (\<forall>g\<in>set good. grammar_prefix g) \<and>
          valid_types es ms \<longrightarrow>
        download es ms ds net w =
          (Raised (Warning ''Wrong record'' line), snd (fetch_manifest net w)) \<and>
        get_records_dataframe es ms ds net w =
          (Raised (Warning ''Wrong record'' line), snd (fetch_manifest net w))) \<and>
     (line \<in> set (records_txt net) \<longrightarrow>
        fst (download es ms ds net w) \<noteq> Returned None () \<and>
        (snd (download es ms ds net w) = w \<or>
         snd (download es ms ds net w) = snd (fetch_manifest net w)) \<and>
        (\<forall>v. fst (get_records_dataframe es ms ds net w) \<noteq> Returned None v))"
proof (intro conjI allI impI)
  show bad: "parse_record line = Inl (Warning ''Wrong record'' line)"
    using assms by (simp add: parse_record_fails_iff)
  {
    assume a: "records_txt net = good @ line # rest \<and> (\<forall>g\<in>set good. grammar_prefix g) \<and>
          valid_types es ms"
    then have f: "find (\<lambda>l. parse_record l = Inl (Warning ''Wrong record'' l)) (records_txt net) =
        Some line"
      using bad by (simp add: find_first parse_record_fails_iff)
    from a f show "download es ms ds net w =
          (Raised (Warning ''Wrong record'' line), snd (fetch_manifest net w))"
      by (simp add: download_valid_types)
    from a f show "get_records_dataframe es ms ds net w =
          (Raised (Warning ''Wrong record'' line), snd (fetch_manifest net w))"
      by (simp add: get_records_dataframe_valid_types)
  }
  assume mem: "line \<in> set (records_txt net)"
  with bad obtain l where
    f: "find (\<lambda>l. parse_record l = Inl (Warning ''Wrong record'' l)) (records_txt net) = Some l"
    by (cases "find (\<lambda>l. parse_record l = Inl (Warning ''Wrong record'' l)) (records_txt net)")
       (auto simp: find_None_iff)
  show "fst (download es ms ds net w) \<noteq> Returned None ()"
    using download_invalid_types [of es ms ds net w] download_valid_types [of es ms ds net w] f
    by (cases "valid_types es ms") auto
  show "snd (download es ms ds net w) = w \<or>
         snd (download es ms ds net w) = snd (fetch_manifest net w)"
    using download_invalid_types [of es ms ds net w] download_valid_types [of es ms ds net w] f
    by (cases "valid_types es ms") auto
  show "fst (get_records_dataframe es ms ds net w) \<noteq> Returned None v" for v
    using download_invalid_types [of es ms ds net w]
      get_records_dataframe_valid_types [of es ms ds net w] f
    by (cases "valid_types es ms") auto
qed

theorem malformed_line_aborts_witness:
  "\<not> grammar_prefix ''emg_force-7-sit'' \<and>
   parse_record ''emg_force-7-sit'' = Inl (Warning ''Wrong record'' ''emg_force-7-sit'') \<and>
   download [''emg_gestures''] [''data-csv''] [] broken_remote empty_world =
     (Raised (Warning ''Wrong record'' ''emg_force-7-sit''),
      snd (fetch_manifest broken_remote empty_world)) \<and>
   get_records_dataframe [''emg_gestures''] [''data-csv''] [] broken_remote empty_world =
     (Raised (Warning ''Wrong record'' ''emg_force-7-sit''),
      snd (fetch_manifest broken_remote empty_world)) \<and>
   fst (download [''bogus''] [''data-csv''] [] broken_remote empty_world) \<noteq> Returned None () \<and>
   snd (download [''bogus''] [''data-csv''] [] broken_remote empty_world) = empty_world"
proof -
  have n: "\<not> grammar_prefix ''emg_force-7-sit''"
    using parse_record_short_id by (simp add: parse_record_fails_iff)
  have "parse_record ''emg_gestures-03-walk-2020-01-01-12-00-00-000'' \<noteq>
      Inl (Warning ''Wrong record'' ''emg_gestures-03-walk-2020-01-01-12-00-00-000'')"
    by code_simp
  then have g: "\<forall>g\<in>set [''emg_gestures-03-walk-2020-01-01-12-00-00-000'']. grammar_prefix g"
    by (simp add: parse_record_fails_iff)
  have r: "records_txt broken_remote =
      [''emg_gestures-03-walk-2020-01-01-12-00-00-000''] @ ''emg_force-7-sit'' # []"
    by (simp add: broken_remote_def)
  have m: "''emg_force-7-sit'' \<in> set (records_txt broken_remote)"
    by (simp add: broken_remote_def)
  have b: "snd (download [''bogus''] [''data-csv''] [] broken_remote empty_world) = empty_world"
    by (simp add: download_def check_experiment_types_def)
  note a = malformed_line_aborts [OF n, where net = broken_remote and es = "[''emg_gestures'']"
      and ms = "[''data-csv'']" and ds = "[]" and w = empty_world
      and good = "[''emg_gestures-03-walk-2020-01-01-12-00-00-000'']" and rest = "[]"]
  note c = malformed_line_aborts [OF n, where net = broken_remote and es = "[''bogus'']"
      and ms = "[''data-csv'']" and ds = "[]" and w = empty_world
      and good = "[]" and rest = "[]"]
  from a r g valid_types_example have "download [''emg_gestures''] [''data-csv''] [] broken_remote empty_world =
     (Raised (Warning ''Wrong record'' ''emg_force-7-sit''),
      snd (fetch_manifest broken_remote empty_world)) \<and>
   get_records_dataframe [''emg_gestures''] [''data-csv''] [] broken_remote empty_world =
     (Raised (Warning ''Wrong record'' ''emg_force-7-sit''),
      snd (fetch_manifest broken_remote empty_world))"
    by blast
  moreover from c m have
    "fst (download [''bogus''] [''data-csv''] [] broken_remote empty_world) \<noteq> Returned None ()"
    by blast
  moreover from a have
    "parse_record ''emg_force-7-sit'' = Inl (Warning ''Wrong record'' ''emg_force-7-sit'')"
    by blast
  ultimately show ?thesis using n b by blast
qed

section \<open>Claims about the validation\<close>

text \<open>
  C4. The validation of the media types accepts an element exactly when it is a substring
  of one of the five known media types. A call with an element that is a substring of
  none of them ends early and leaves the world as it was, so nothing is read from the
  network; when the experiment types have passed their own validation, which comes first,
  the exit is \<open>Invalid media type\<close> for the first such element, and
  \<open>get_records_dataframe\<close> returns an empty data frame.
\<close>

theorem media_type_validation:
  "(media_type_ok m \<longleftrightarrow>
      (\<exists>t\<in>{''data-csv'', ''data-hdf5'', ''depth'', ''video-1080p'', ''video-576p''}.
         \<exists>ps ss. t = ps @ m @ ss)) \<and>
   (m \<in> set ms \<and> \<not> media_type_ok m \<longrightarrow>
      snd (download es ms ds net w) = w \<and>
      snd (get_records_dataframe es ms ds net w) = w \<and>
      (\<exists>e. fst (download es ms ds net w) = Returned (Some e) ()) \<and>
      (es \<noteq> [] \<and> set es \<subseteq> {''emg_gestures'', ''emg_force''} \<longrightarrow>
         (\<exists>b. check_media_types ms = Some b \<and> b \<in> set ms \<and> \<not> media_type_ok b \<and>
            fst (download es ms ds net w) = Returned (Some (InvalidMediaType b)) () \<and>
            fst (get_records_dataframe es ms ds net w) =
              Returned (Some (InvalidMediaType b)) (DataFrame []))))"
proof (intro conjI impI)
  show "media_type_ok m \<longleftrightarrow>
      (\<exists>t\<in>{''data-csv'', ''data-hdf5'', ''depth'', ''video-1080p'', ''video-576p''}.
         \<exists>ps ss. t = ps @ m @ ss)"
    by (simp add: media_type_ok_iff MEDIA_TYPES_def sublist_def)
next
  assume a: "m \<in> set ms \<and> \<not> media_type_ok m"
  then have nv: "\<not> valid_types es ms"
    by (auto simp: valid_types_def media_type_ok_iff)
  from download_invalid_types [OF nv, of ds net w]
  show "snd (download es ms ds net w) = w" "snd (get_records_dataframe es ms ds net w) = w"
    "\<exists>e. fst (download es ms ds net w) = Returned (Some e) ()"
    by auto
  assume e: "es \<noteq> [] \<and> set es \<subseteq> {''emg_gestures'', ''emg_force''}"
  from a obtain b where b: "check_media_types ms = Some b"
    by (cases "check_media_types ms") (auto simp: check_media_types_def find_None_iff)
  then have bb: "b \<in> set ms \<and> \<not> media_type_ok b"
    by (auto simp: check_media_types_def find_Some_iff)
  from a have ne: "ms \<noteq> []" by auto
  from e have ce: "check_experiment_types es = None"
    by (simp add: check_experiment_types_None)
  show "\<exists>b. check_media_types ms = Some b \<and> b \<in> set ms \<and> \<not> media_type_ok b \<and>
            fst (download es ms ds net w) = Returned (Some (InvalidMediaType b)) () \<and>
            fst (get_records_dataframe es ms ds net w) =
              Returned (Some (InvalidMediaType b)) (DataFrame [])"
    using b bb e ne ce
    by (simp add: download_def get_records_dataframe_def create_dataframe_from_records_meta_def)
qed

lemma media_type_not_ok_example: "\<not> media_type_ok ''audio''"
  by code_simp

lemma media_type_ok_example: "media_type_ok ''video''"
  by code_simp

theorem media_type_validation_witness:
  "''audio'' \<in> set [''data-csv'', ''audio''] \<and> \<not> media_type_ok ''audio'' \<and>
   media_type_ok ''video'' \<and>
   snd (download [''emg_force''] [''data-csv'', ''audio''] [] example_remote empty_world) =
     empty_world \<and>
   snd (get_records_dataframe [''emg_force''] [''data-csv'', ''audio''] [] example_remote
     empty_world) = empty_world \<and>
   fst (download [''emg_force''] [''data-csv'', ''audio''] [] example_remote empty_world) =
     Returned (Some (InvalidMediaType ''audio'')) () \<and>
   fst (get_records_dataframe [''emg_force''] [''data-csv'', ''audio''] [] example_remote
     empty_world) = Returned (Some (InvalidMediaType ''audio'')) (DataFrame [])"
proof -
  note a = media_type_validation [where m = "''audio''" and ms = "[''data-csv'', ''audio'']"
      and es = "[''emg_force'']" and ds = "[]" and net = example_remote and w = empty_world]
  have c: "check_media_types [''data-csv'', ''audio''] = Some ''audio''"
    by code_simp
  have m: "''audio'' \<in> set [''data-csv'', ''audio'']" by simp
  have e: "[''emg_force''] \<noteq> [] \<and> set [''emg_force''] \<subseteq> {''emg_gestures'', ''emg_force''}"
    by simp
  from a m e c media_type_not_ok_example media_type_ok_example show ?thesis
    by (simp del: set_simps)
qed

lemma select_ids_bad:
  assumes "i \<in> set ds" "\<not> digits 2 i \<or> i \<notin> observed_ids ls"
  shows "\<exists>b\<in>set ds. select_ids ds (observed_ids ls) = Inl (InvalidId b) \<or>
     select_ids ds (observed_ids ls) = Inl (IdNotAvailable b)"
proof -
  from assms have "re_match id_regexp i = None \<or> i \<notin> observed_ids ls"
    using observed_ids_digits by blast
  with assms(1) obtain b where
    b: "find (\<lambda>i. re_match id_regexp i = None \<or> i \<notin> observed_ids ls) ds = Some b"
    by (cases "find (\<lambda>i. re_match id_regexp i = None \<or> i \<notin> observed_ids ls) ds")
       (auto simp: find_None_iff)
  then have "b \<in> set ds" by (auto simp: find_Some_iff)
  with b show ?thesis by (auto simp: select_ids_find)
qed



section \<open>Claims about the selection of records\<close>

text \<open>
  C6. A call whose requested IDs contain an ID that is not two decimal digits, or that is
  not among the IDs observed in the manifest, never reaches its end: \<open>download\<close> leaves the
  world as it was or with the GET of the manifest only, so no directory is made and no
  \<open>fetch_data\<close> is dispatched. When the call reaches the validation of the IDs (the
  experiment and media types are valid and every line of the manifest is parsed), it ends
  with \<open>Invalid id\<close> or \<open>ID not available\<close>, the specification's \<open>InvalidIdError\<close>.
\<close>

theorem invalid_id_aborts:
  assumes "i \<in> set ds" "\<not> digits 2 i \<or> i \<notin> observed_ids (records_txt net)"
  shows "fst (download es ms ds net w) \<noteq> Returned None () \<and>
     (snd (download es ms ds net w) = w \<or>
      snd (download es ms ds net w) = snd (fetch_manifest net w)) \<and>
     (valid_types es ms \<and> manifest_ok (records_txt net) \<longrightarrow>
        (\<exists>e. is_id_error e \<and>
           download es ms ds net w = (Returned (Some e) (), snd (fetch_manifest net w))))"
proof (cases "valid_types es ms")
  case False
  from download_invalid_types [OF False, of ds net w] False show ?thesis by auto
next
  case True
  note d = download_valid_types [OF True, of ds net w]
  from select_ids_bad [OF assms] obtain e where
    e: "select_ids ds (observed_ids (records_txt net)) = Inl e" "is_id_error e"
    by (auto simp: is_id_error_def)
  show ?thesis
  proof (cases "find (\<lambda>l. parse_record l = Inl (Warning ''Wrong record'' l)) (records_txt net)")
    case None
    with d e show ?thesis by auto
  next
    case (Some l)
    with d show ?thesis by (auto simp: manifest_ok_find)
  qed
qed

theorem invalid_id_aborts_witness:
  "''99'' \<in> set [''03'', ''99''] \<and> ''99'' \<notin> observed_ids (records_txt example_remote) \<and>
   valid_types [''emg_gestures''] [''data-csv''] \<and> manifest_ok (records_txt example_remote) \<and>
   fst (download [''emg_gestures''] [''data-csv''] [''03'', ''99''] example_remote empty_world)
     \<noteq> Returned None () \<and>
   (\<exists>e. is_id_error e \<and>
      download [''emg_gestures''] [''data-csv''] [''03'', ''99''] example_remote empty_world =
        (Returned (Some e) (), snd (fetch_manifest example_remote empty_world)))"
proof -
  have o: "''99'' \<notin> observed_ids (records_txt example_remote)"
    by (simp add: example_remote_def observed_ids_example)
  have m: "manifest_ok (records_txt example_remote)"
    by (simp add: example_remote_def manifest_ok_example)
  have i: "''99'' \<in> set [''03'', ''99'']" by simp
  from invalid_id_aborts [OF i disjI2, OF o, of "[''emg_gestures'']" "[''data-csv'']" empty_world]
    valid_types_example m o i
  show ?thesis by blast
qed




text \<open>
  C9. Every early exit of \<open>get_records_dataframe\<close> returns an empty data frame, but the two
  exits of the validation of the IDs, which return the bare list \<open>records_meta\<close>, empty.
  A call that reaches that validation with an ID that is not two digits or not observed in
  the manifest takes one of these two exits.
\<close>

theorem bare_list_on_invalid_id:
  "(fst (get_records_dataframe es ms ds net w) = Returned (Some e) v \<longrightarrow>
      v = (if is_id_error e then BareList [] else DataFrame [])) \<and>
   (valid_types es ms \<and> manifest_ok (records_txt net) \<and> i \<in> set ds \<and>
    (\<not> digits 2 i \<or> i \<notin> observed_ids (records_txt net)) \<longrightarrow>
      (\<exists>e. is_id_error e \<and>
         fst (get_records_dataframe es ms ds net w) = Returned (Some e) (BareList [])))"
proof (intro conjI impI)
  assume a: "fst (get_records_dataframe es ms ds net w) = Returned (Some e) v"
  show "v = (if is_id_error e then BareList [] else DataFrame [])"
  proof (cases "valid_types es ms")
    case False
    from download_invalid_types [OF False, of ds net w] a show ?thesis by auto
  next
    case True
    from a show ?thesis
      unfolding get_records_dataframe_valid_types [OF True] select_ids_find
      by (auto simp: is_id_error_def split: option.splits if_splits)
  qed
next
  assume a: "valid_types es ms \<and> manifest_ok (records_txt net) \<and> i \<in> set ds \<and>
    (\<not> digits 2 i \<or> i \<notin> observed_ids (records_txt net))"
  then obtain e where
    e: "select_ids ds (observed_ids (records_txt net)) = Inl e" "is_id_error e"
    using select_ids_bad [of i ds "records_txt net"] by (auto simp: is_id_error_def)
  with a show "\<exists>e. is_id_error e \<and>
         fst (get_records_dataframe es ms ds net w) = Returned (Some e) (BareList [])"
    by (auto simp: get_records_dataframe_valid_types manifest_ok_find)
qed

theorem bare_list_on_invalid_id_witness:
  "valid_types [''emg_gestures''] [''data-csv''] \<and> manifest_ok (records_txt example_remote) \<and>
   ''7'' \<in> set [''7''] \<and> \<not> digits 2 ''7'' \<and>
   fst (get_records_dataframe [''emg_gestures''] [''data-csv''] [''7''] example_remote empty_world) =
     Returned (Some (InvalidId ''7'')) (BareList []) \<and>
   fst (get_records_dataframe [''bogus''] [''data-csv''] [''7''] example_remote empty_world) =
     Returned (Some (InvalidExperimentType ''bogus'')) (DataFrame [])"
proof -
  have m: "manifest_ok (records_txt example_remote)"
    by (simp add: example_remote_def manifest_ok_example)
  have d: "\<not> digits 2 ''7''" by code_simp
  have x: "fst (get_records_dataframe [''bogus''] [''data-csv''] [''7''] example_remote
      empty_world) = Returned (Some (InvalidExperimentType ''bogus'')) (DataFrame [])"
    by (simp add: get_records_dataframe_def check_experiment_types_def
          create_dataframe_from_records_meta_def)
  have s: "select_ids [''7''] (observed_ids (records_txt example_remote)) = Inl (InvalidId ''7'')"
    by (simp add: example_remote_def observed_ids_example select_ids_def re_match_def
          first_match_def id_regexp_def)
  have y: "fst (get_records_dataframe [''emg_gestures''] [''data-csv''] [''7''] example_remote
      empty_world) = Returned (Some (InvalidId ''7'')) (BareList [])"
    using m s by (simp add: get_records_dataframe_valid_types [OF valid_types_example]
        manifest_ok_find)
  from bare_list_on_invalid_id [of "[''emg_gestures'']" "[''data-csv'']" "[''7'']" example_remote
      empty_world "InvalidId ''7''" "BareList []" "''7''"]
    valid_types_example m d x y
  show ?thesis by simp
qed

section \<open>The tasks of a record\<close>

lemma record_tasks_eq:
  "record_tasks M r =
     map (\<lambda>m. (media_dir m, record_name r, media_ext m))
       (filter (\<lambda>m. m \<in> M \<and> \<not> (m = ''depth'' \<and> r_type r = ''emg_force''))
          [''data-csv'', ''data-hdf5'', ''depth'', ''video-1080p'', ''video-576p''])"
proof -
  have d: "media_dir ''data-csv'' = DATA_CSV_DIR" "media_dir ''data-hdf5'' = DATA_HDF5_DIR"
    "media_dir ''depth'' = DEPTH_DIR" "media_dir ''video-1080p'' = VIDEO_1080p_DIR"
    "media_dir ''video-576p'' = VIDEO_576p_DIR"
    by (simp_all add: media_dir_def DATA_CSV_DIR_def
          DATA_HDF5_DIR_def DEPTH_DIR_def VIDEO_1080p_DIR_def VIDEO_576p_DIR_def)
  have x: "media_ext ''data-csv'' = ''zip''" "media_ext ''data-hdf5'' = ''hdf5''"
    "media_ext ''depth'' = ''zip''" "media_ext ''video-1080p'' = ''mp4''"
    "media_ext ''video-576p'' = ''mp4''"
    by (simp_all add: media_ext_def)
  have f: "filter P [a, b, c, e, g] =
      (if P a then [a] else []) @ (if P b then [b] else []) @ (if P c then [c] else []) @
      (if P e then [e] else []) @ (if P g then [g] else [])" for P and a b c e g :: string
    by simp
  have n: "''data-csv'' \<noteq> ''depth''" "''data-hdf5'' \<noteq> ''depth''" "''video-1080p'' \<noteq> ''depth''"
    "''video-576p'' \<noteq> ''depth''"
    by simp_all
  show ?thesis
    unfolding record_tasks_def Let_def f map_append
    by (simp only: d x n if_distrib [of "map _"] list.map simp_thms)
qed

lemma count_map_filter:
  "distinct xs \<Longrightarrow> inj_on g (set xs) \<Longrightarrow> x \<in> set xs \<Longrightarrow>
     length (filter (\<lambda>t. t = g x) (map g (filter P xs))) = (if P x then 1 else 0)"
proof (induction xs)
  case Nil
  then show ?case by simp
next
  case (Cons a xs)
  show ?case
  proof (cases "x = a")
    case True
    with Cons.prems have "\<forall>y\<in>set xs. g y \<noteq> g a" by (auto simp: inj_on_def)
    with True show ?thesis by (auto simp: filter_empty_conv)
  next
    case False
    with Cons.prems have "x \<in> set xs" "g a \<noteq> g x" "distinct xs" "inj_on g (set xs)"
      by (auto simp: inj_on_def)
    with Cons.IH [OF this(3,4,1)] show ?thesis by auto
  qed
qed

lemma media_inj:
  "inj_on (\<lambda>m. (media_dir m, n, media_ext m))
     (set [''data-csv'', ''data-hdf5'', ''depth'', ''video-1080p'', ''video-576p''])"
  by (simp add: inj_on_def media_dir_def)

lemma record_tasks_count:
  assumes "m \<in> set [''data-csv'', ''data-hdf5'', ''depth'', ''video-1080p'', ''video-576p'']"
  shows "length (filter (\<lambda>t. t = (media_dir m, record_name r, media_ext m)) (record_tasks M r)) =
        (if m \<in> M \<and> \<not> (m = ''depth'' \<and> r_type r = ''emg_force'') then 1 else 0)"
  unfolding record_tasks_eq
  by (rule count_map_filter [OF _ media_inj assms]) simp

section \<open>Claims about the artifacts and their fetching\<close>

text \<open>
  C2. For a record that passed the test of line 154 and any set of selected media types,
  the tasks created are, in the order of the five media types, one for each selected media
  type, except \<open>depth\<close> when the record's type is \<open>emg_force\<close>: so each of the five media
  types has one task when it is selected and applies, and none otherwise. The name of the
  record in every task is its canonical name, the five fields type, id, trajectory, date
  and time joined by dashes. The task of a media type fetches the URL made of the base,
  the directory of the media type, \<open>&files=\<close>, the canonical name, a dot and the
  extension of the media type (\<open>zip\<close> for \<open>data-csv\<close> and \<open>depth\<close>, \<open>hdf5\<close> for \<open>data-hdf5\<close>,
  \<open>mp4\<close> for both videos), into the file of that name and extension in the local
  directory of the same name.
\<close>

theorem record_tasks_expansion:
  "record_tasks M r =
     map (\<lambda>m. (media_dir m, (r_type r @ ''-'' @ r_id r @ ''-'' @ r_trajectory r @ ''-'' @ r_date r @ ''-'' @ r_time r), media_ext m))
       (filter (\<lambda>m. m \<in> M \<and> \<not> (m = ''depth'' \<and> r_type r = ''emg_force''))
          [''data-csv'', ''data-hdf5'', ''depth'', ''video-1080p'', ''video-576p'']) \<and>
   (m \<in> {''data-csv'', ''data-hdf5'', ''depth'', ''video-1080p'', ''video-576p''} \<longrightarrow>
      length (filter (\<lambda>t. t = (media_dir m, (r_type r @ ''-'' @ r_id r @ ''-'' @ r_trajectory r @ ''-'' @ r_date r @ ''-'' @ r_time r), media_ext m)) (record_tasks M r)) =
        (if m \<in> M \<and> \<not> (m = ''depth'' \<and> r_type r = ''emg_force'') then 1 else 0)) \<and>
   task_url (media_dir m, (r_type r @ ''-'' @ r_id r @ ''-'' @ r_trajectory r @ ''-'' @ r_date r @ ''-'' @ r_time r), media_ext m) =
     BASE_URL @ media_dir m @ ''&files='' @
       (r_type r @ ''-'' @ r_id r @ ''-'' @ r_trajectory r @ ''-'' @ r_date r @ ''-'' @ r_time r) @ ''.'' @ media_ext m \<and>
   task_path (media_dir m, (r_type r @ ''-'' @ r_id r @ ''-'' @ r_trajectory r @ ''-'' @ r_date r @ ''-'' @ r_time r), media_ext m) =
     media_dir m @ ''/'' @
       (r_type r @ ''-'' @ r_id r @ ''-'' @ r_trajectory r @ ''-'' @ r_date r @ ''-'' @ r_time r) @ ''.'' @ media_ext m"
proof -
  have n: "(r_type r @ ''-'' @ r_id r @ ''-'' @ r_trajectory r @ ''-'' @ r_date r @ ''-'' @ r_time r) = record_name r"
    by (simp add: record_name_def)
  show ?thesis
    unfolding n using record_tasks_count [of m r M]
    by (simp add: record_tasks_eq task_url_def fetch_url_def task_path_def fetch_path_def
          del: filter.simps)
qed

theorem record_tasks_expansion_witness:
  "''depth'' \<in> {''data-csv'', ''data-hdf5'', ''depth'', ''video-1080p'', ''video-576p''} \<and>
   length (filter (\<lambda>t. t = (''Depth'', ''emg_force-07-sit-2020-02-02-08-30-00-500'', ''zip''))
     (record_tasks {''depth'', ''data-csv''}
        \<lparr>r_type = ''emg_force'', r_id = ''07'', r_trajectory = ''sit'',
          r_date = ''2020-02-02'', r_time = ''08-30-00-500''\<rparr>)) = 0 \<and>
   record_tasks {''depth'', ''data-csv''}
        \<lparr>r_type = ''emg_force'', r_id = ''07'', r_trajectory = ''sit'',
          r_date = ''2020-02-02'', r_time = ''08-30-00-500''\<rparr> =
     [(''Data-CSV'', ''emg_force-07-sit-2020-02-02-08-30-00-500'', ''zip'')] \<and>
   task_path (''Depth'', ''emg_force-07-sit-2020-02-02-08-30-00-500'', ''zip'') =
     ''Depth/emg_force-07-sit-2020-02-02-08-30-00-500.zip''"
  using record_tasks_expansion [of "{''depth'', ''data-csv''}"
      "\<lparr>r_type = ''emg_force'', r_id = ''07'', r_trajectory = ''sit'',
          r_date = ''2020-02-02'', r_time = ''08-30-00-500''\<rparr>" "''depth''"]
  by (simp add: media_dir_def media_ext_def)



lemma make_dirs_dirs:
  "dirs (make_dirs M w) =
     dirs w \<union> media_dir ` (M \<inter> {''data-csv'', ''data-hdf5'', ''depth'', ''video-1080p'', ''video-576p''})"
  by (auto simp: make_dirs_def makedirs_def Let_def media_dir_def DATA_CSV_DIR_def
        DATA_HDF5_DIR_def DEPTH_DIR_def VIDEO_1080p_DIR_def VIDEO_576p_DIR_def)

lemma make_dirs_calls:
  "calls (make_dirs M w) =
     calls w @ map (\<lambda>m. MakeDirs (media_dir m))
       (filter (\<lambda>m. m \<in> M) [''data-csv'', ''data-hdf5'', ''depth'', ''video-1080p'', ''video-576p''])"
  by (simp add: make_dirs_def makedirs_def Let_def media_dir_def DATA_CSV_DIR_def
        DATA_HDF5_DIR_def DEPTH_DIR_def VIDEO_1080p_DIR_def VIDEO_576p_DIR_def)

lemma make_dirs_files: "files (make_dirs M w) = files w"
  by (simp add: make_dirs_def makedirs_def Let_def)

lemma download_done:
  assumes "fst (download es ms ds net w) = Returned None ()"
  shows "download es ms ds net w =
     (Returned None (),
      snd (gather net (all_tasks (set es) (set ms)
             (effective_ids (observed_ids (records_txt net)) (set ds))
             (parsed_records (records_txt net)))
        (make_dirs (set ms) (snd (fetch_manifest net w)))))"
proof (cases "valid_types es ms")
  case False
  from download_invalid_types [OF False, of ds net w] assms show ?thesis by auto
next
  case True
  from assms show ?thesis
    unfolding download_valid_types [OF True] select_ids_find
    by (auto split: option.splits)
qed

lemma force_record_no_depth:
  "r_type r = ''emg_force'' \<Longrightarrow> t \<in> set (record_tasks M r) \<Longrightarrow> fst t \<noteq> ''Depth''"
  by (auto simp: record_tasks_def Let_def DATA_CSV_DIR_def DATA_HDF5_DIR_def VIDEO_1080p_DIR_def
        VIDEO_576p_DIR_def split: if_splits)


text \<open>
  C10. A call of \<open>download\<close> that reaches its end has made, after reading the manifest and
  before the loop over the records creates any task, the directory of every requested
  media type, in the order of the five media types: the directories made depend on the
  requested media types only, not on the records, and every request for an artifact comes
  after them. So \<open>Depth\<close> is made whenever \<open>depth\<close> is requested, also when every matched
  record is of type \<open>emg_force\<close> and no task has \<open>Depth\<close> as its directory.
\<close>

theorem directories_before_records:
  assumes "fst (download es ms ds net w) = Returned None ()"
  shows "dirs (snd (download es ms ds net w)) =
       dirs w \<union> media_dir ` (set ms \<inter>
         {''data-csv'', ''data-hdf5'', ''depth'', ''video-1080p'', ''video-576p''}) \<and>
     calls (snd (download es ms ds net w)) =
       calls w @ [HttpGet (BASE_URL @ ''&files=records.txt'')] @
       map (\<lambda>m. MakeDirs (media_dir m))
         (filter (\<lambda>m. m \<in> set ms)
            [''data-csv'', ''data-hdf5'', ''depth'', ''video-1080p'', ''video-576p'']) @
       map (\<lambda>t. HttpGet (task_url t))
         (filter (\<lambda>t. \<not> isfile w (task_path t))
            (all_tasks (set es) (set ms)
               (effective_ids (observed_ids (records_txt net)) (set ds))
               (parsed_records (records_txt net)))) \<and>
     (''depth'' \<in> set ms \<longrightarrow> ''Depth'' \<in> dirs (snd (download es ms ds net w))) \<and>
     ((\<forall>r\<in>set (matched (set es) (effective_ids (observed_ids (records_txt net)) (set ds))
                 (parsed_records (records_txt net))). r_type r = ''emg_force'') \<longrightarrow>
      (\<forall>t\<in>set (all_tasks (set es) (set ms)
                 (effective_ids (observed_ids (records_txt net)) (set ds))
                 (parsed_records (records_txt net))). fst t \<noteq> ''Depth''))"
proof -
  have i: "isfile (make_dirs M v) p = isfile v p" "isfile (v\<lparr>calls := cs\<rparr>) p = isfile v p"
    for M v p cs
    by (simp_all add: isfile_def make_dirs_files)
  have d: "dirs (snd (download es ms ds net w)) =
       dirs w \<union> media_dir ` (set ms \<inter>
         {''data-csv'', ''data-hdf5'', ''depth'', ''video-1080p'', ''video-576p''})"
    by (simp add: download_done [OF assms] gather_dirs make_dirs_dirs fetch_manifest_def
          http_get_def)
  have c: "calls (snd (download es ms ds net w)) =
       calls w @ [HttpGet (BASE_URL @ ''&files=records.txt'')] @
       map (\<lambda>m. MakeDirs (media_dir m))
         (filter (\<lambda>m. m \<in> set ms)
            [''data-csv'', ''data-hdf5'', ''depth'', ''video-1080p'', ''video-576p'']) @
       map (\<lambda>t. HttpGet (task_url t))
         (filter (\<lambda>t. \<not> isfile w (task_path t))
            (all_tasks (set es) (set ms)
               (effective_ids (observed_ids (records_txt net)) (set ds))
               (parsed_records (records_txt net))))"
    by (simp add: download_done [OF assms] gather_calls make_dirs_calls i fetch_manifest_def
          http_get_def del: filter.simps)
  have e: "''depth'' \<in> set ms \<longrightarrow> ''Depth'' \<in> dirs (snd (download es ms ds net w))"
    unfolding d by (auto simp: media_dir_def)
  have f: "(\<forall>r\<in>set (matched (set es) (effective_ids (observed_ids (records_txt net)) (set ds))
                 (parsed_records (records_txt net))). r_type r = ''emg_force'') \<longrightarrow>
      (\<forall>t\<in>set (all_tasks (set es) (set ms)
                 (effective_ids (observed_ids (records_txt net)) (set ds))
                 (parsed_records (records_txt net))). fst t \<noteq> ''Depth'')"
    unfolding all_tasks_def using force_record_no_depth by fastforce
  from d c e f show ?thesis by blast
qed

theorem directories_before_records_witness:
  "fst (download [''emg_force''] [''depth''] [] example_remote empty_world) = Returned None () \<and>
   ''depth'' \<in> set [''depth''] \<and>
   dirs (snd (download [''emg_force''] [''depth''] [] example_remote empty_world)) = {''Depth''} \<and>
   calls (snd (download [''emg_force''] [''depth''] [] example_remote empty_world)) =
     [HttpGet (BASE_URL @ ''&files=records.txt''), MakeDirs ''Depth'']"
proof -
  have v: "valid_types [''emg_force''] [''depth'']" by code_simp
  have m: "find (\<lambda>l. parse_record l = Inl (Warning ''Wrong record'' l))
      (records_txt example_remote) = None"
    using manifest_ok_example by (simp add: example_remote_def manifest_ok_find)
  have h: "fst (download [''emg_force''] [''depth''] [] example_remote empty_world) =
      Returned None ()"
    by (simp add: download_valid_types [OF v] m select_ids_def)
  have t: "all_tasks (set [''emg_force'']) (set [''depth''])
      (effective_ids (observed_ids example_manifest) (set [])) (parsed_records example_manifest) = []"
    by code_simp
  have r: "records_txt example_remote = example_manifest"
    by (simp add: example_remote_def)
  have x: "media_dir ` (set [''depth''] \<inter>
         {''data-csv'', ''data-hdf5'', ''depth'', ''video-1080p'', ''video-576p''}) = {''Depth''}"
    by (auto simp: media_dir_def)
  have y: "map (\<lambda>m. MakeDirs (media_dir m))
         (filter (\<lambda>m. m \<in> set [''depth''])
            [''data-csv'', ''data-hdf5'', ''depth'', ''video-1080p'', ''video-576p'']) =
       [MakeDirs ''Depth'']"
    by (simp add: media_dir_def)
  from directories_before_records [OF h] show ?thesis
    unfolding r t x y using h by (simp add: empty_world_def)
qed

end
